theory Spec2Isabelle
  imports Main "HOL-Library.FSet" "HOL-Library.Char_ord" "HOL-Library.List_Lexorder"
begin

section \<open>Strings and character classes\<close>

text \<open>
  A Python \<open>str\<close> is modelled as a \<open>string\<close>, one \<open>char\<close> per code point; the
  code points 0 to 255 are covered. \<open>Char_ord\<close> orders characters by code point, so the
  ranges of the regular expressions are written as comparisons.
\<close>

definition ascii_upper :: "char \<Rightarrow> bool" where
  \<comment> \<open>the class \<open>[A-Z]\<close>\<close>
  "ascii_upper c \<longleftrightarrow> CHR ''A'' \<le> c \<and> c \<le> CHR ''Z''"

definition ascii_lower :: "char \<Rightarrow> bool" where
  \<comment> \<open>the class \<open>[a-z]\<close>\<close>
  "ascii_lower c \<longleftrightarrow> CHR ''a'' \<le> c \<and> c \<le> CHR ''z''"

definition ascii_digit :: "char \<Rightarrow> bool" where
  \<comment> \<open>the class \<open>[0-9]\<close>\<close>
  "ascii_digit c \<longleftrightarrow> CHR ''0'' \<le> c \<and> c \<le> CHR ''9''"

definition ascii_letter :: "char \<Rightarrow> bool" where
  \<comment> \<open>the class \<open>[A-Za-z]\<close>\<close>
  "ascii_letter c \<longleftrightarrow> ascii_upper c \<or> ascii_lower c"

definition isupper :: "char \<Rightarrow> bool" where
  \<comment> \<open>\<open>c.isupper()\<close> for a single character: the upper-case letters, which below code
      point 256 are A-Z, U+00C0-U+00D6 and U+00D8-U+00DE\<close>
  "isupper c \<longleftrightarrow> ascii_upper c \<or> (CHR 0xC0 \<le> c \<and> c \<le> CHR 0xD6) \<or> (CHR 0xD8 \<le> c \<and> c \<le> CHR 0xDE)"

section \<open>Tokenizer: \<open>get_words\<close>\<close>

definition sub_non_letters :: "string \<Rightarrow> string" where
  \<comment> \<open>\<open>re.sub('[^A-Za-z]', ' ', value)\<close>\<close>
  "sub_non_letters value = map (\<lambda>c. if ascii_letter c then c else CHR '' '') value"

fun split_py :: "char \<Rightarrow> string \<Rightarrow> string list" where
  \<comment> \<open>\<open>s.split(sep)\<close> for a one-character separator: empty pieces are kept\<close>
  "split_py sep [] = [[]]"
| "split_py sep (c # cs) =
     (if c = sep then [] # split_py sep cs
      else (case split_py sep cs of
              [] \<Rightarrow> [[c]]
            | w # ws \<Rightarrow> (c # w) # ws))"

fun camel_starts :: "nat \<Rightarrow> string \<Rightarrow> nat list" where
  \<comment> \<open>\<open>[m.start() for m in re.finditer('[^A-Z][A-Z0-9]', w)]\<close>, scanning the rest of
      \<open>w\<close> from offset \<open>i\<close>: matches do not overlap, so the scan resumes two
      characters after a match\<close>
  "camel_starts i (a # b # cs) =
     (if \<not> ascii_upper a \<and> (ascii_upper b \<or> ascii_digit b)
      then i # camel_starts (i + 2) cs
      else camel_starts (i + 1) (b # cs))"
| "camel_starts i cs = []"

definition split_pos :: "string \<Rightarrow> nat list" where
  "split_pos w = [0] @ map (\<lambda>m. m + 1) (camel_starts 0 w) @ [length w]"

definition slice_py :: "string \<Rightarrow> nat \<Rightarrow> nat \<Rightarrow> string" where
  \<comment> \<open>\<open>w[start:end]\<close> for indices within the string\<close>
  "slice_py w start end = take (end - start) (drop start w)"

definition camel_split :: "string \<Rightarrow> string list" where
  \<comment> \<open>\<open>[w[start:end] for start, end in zip(split_pos, split_pos[1:])]\<close>\<close>
  "camel_split w = map (\<lambda>(start, end). slice_py w start end) (zip (split_pos w) (tl (split_pos w)))"

fun words_loop :: "string list \<Rightarrow> string list \<Rightarrow> string list" where
  \<comment> \<open>the first loop of \<open>get_words\<close>, with the list \<open>words\<close> it extends\<close>
  "words_loop [] words = words"
| "words_loop (w # ws) words =
     (if w = [] then words_loop ws words
      else words_loop ws (words @ camel_split w))"

definition keep_word :: "string \<Rightarrow> bool" where
  \<comment> \<open>\<open>len(w) >= 2 and not (w[0].isupper() and w[1].isupper())\<close>\<close>
  "keep_word w \<longleftrightarrow> 2 \<le> length w \<and> \<not> (isupper (w ! 0) \<and> isupper (w ! 1))"

fun text_words_loop :: "string list \<Rightarrow> string list \<Rightarrow> string list" where
  \<comment> \<open>the second loop of \<open>get_words\<close>, with the list \<open>text_words\<close> it appends to\<close>
  "text_words_loop [] text_words = text_words"
| "text_words_loop (w # ws) text_words =
     (if keep_word w then text_words_loop ws (text_words @ [w])
      else text_words_loop ws text_words)"

definition raw_tokens :: "string \<Rightarrow> string list" where
  \<comment> \<open>\<open>value_str.split(' ')\<close> with \<open>value_str = re.sub('[^A-Za-z]', ' ', str(value))\<close>\<close>
  "raw_tokens value = split_py (CHR '' '') (sub_non_letters value)"

definition get_words :: "string \<Rightarrow> string list" where
  "get_words value = text_words_loop (words_loop (raw_tokens value) []) []"

section \<open>Values, errors, configuration and collaborators\<close>

datatype pyvalue =
  Str string
  \<comment> \<open>a \<open>str\<close>\<close>
| Other string
  \<comment> \<open>any object that is not a \<open>str\<close>, given by the string \<open>str(value)\<close> returns for it\<close>

fun str_py :: "pyvalue \<Rightarrow> string" where
  \<comment> \<open>\<open>str(value)\<close>\<close>
  "str_py (Str s) = s"
| "str_py (Other s) = s"

datatype error = IndexError | AttributeError

definition index0 :: "string \<Rightarrow> error + char" where
  \<comment> \<open>\<open>s[0]\<close>, which raises on the empty string\<close>
  "index0 s = (case s of [] \<Rightarrow> Inl IndexError | c # cs \<Rightarrow> Inr c)"

datatype allow_words =
  Word_list "string list"
| Word_str string
  \<comment> \<open>the option \<open>spell_allow_words\<close>: a list of words or one comma-separated string\<close>

record config_map =
  spell_check_props :: "string list option"
  spell_check_ignore_props :: "string list option"
  spell_check_text_only :: "bool option"
  spell_allowlist :: "string option"
  spell_allow_words :: "allow_words option"
  spell_check_output :: "string option"

text \<open>
  A \<open>ConfigMap\<close> holds the options this module reads, each typed as the docstrings and the
  flags give it; an option is \<open>None\<close> when the map has no such key. A \<open>ConfigMap\<close> object
  is truthy, so \<open>not config\<close> holds for \<open>None\<close> only. A collection of property names is a
  list here; the code only tests membership and emptiness on it.
\<close>

definition ConfigMap :: config_map where
  \<comment> \<open>\<open>ConfigMap()\<close>: no option set\<close>
  "ConfigMap = \<lparr>spell_check_props = None, spell_check_ignore_props = None,
     spell_check_text_only = None, spell_allowlist = None, spell_allow_words = None,
     spell_check_output = None\<rparr>"

definition config_get :: "'a option \<Rightarrow> 'a \<Rightarrow> 'a" where
  \<comment> \<open>\<open>config.get(key, default)\<close>, on the option stored under the key\<close>
  "config_get opt default_value = (case opt of None \<Rightarrow> default_value | Some v \<Rightarrow> v)"

definition DEFAULT_IGNORE_SPELL_PROPS :: "string list" where
  "DEFAULT_IGNORE_SPELL_PROPS =
     [''nameWithLanguage'',
      ''url'', ''descriptionUrl'', ''license'', ''sourceDataUrl'', ''cachedSourceDataUrl'',
      ''dataTransformationLogic'',
      ''geoJsonCoordinates'', ''geoJsonCoodinatesDP1'', ''geoJsonCoodinatesDP2'',
      ''geoJsonCoodinatesDP3'',
      ''keyString'']"

record flags =
  flag_spell_allowlist :: string
  flag_spell_error_output :: string
  flag_spell_check_text_only :: bool

text \<open>
  The collaborators of the module, which are not part of it: the property-name validator,
  the namespace stripper, the file matcher, the command-line flags, and the \<open>SpellChecker\<close>
  library over a vocabulary of type \<open>'v\<close>. The functions below take them as a parameter.
  \<open>new_SpellChecker\<close> is \<open>SpellChecker()\<close>; \<open>load_text_file\<close> and \<open>load_words\<close> are the
  methods of its \<open>word_frequency\<close>, returning the vocabulary they have updated; \<open>unknown\<close> is
  \<open>spell_checker.unknown\<close>, which receives its words as a finite set and returns the set of
  those it does not recognize. \<open>DEFAULT_ALLOWLIST\<close> is the path of \<open>words_allowlist.txt\<close>
  beside the script.
\<close>

record 'v externals =
  is_valid_property :: "string \<Rightarrow> bool"
  strip_namespace :: "string \<Rightarrow> string"
  file_get_matching :: "string \<Rightarrow> string list"
  DEFAULT_ALLOWLIST :: string
  FLAGS :: flags
  new_SpellChecker :: 'v
  load_text_file :: "string \<Rightarrow> 'v \<Rightarrow> 'v"
  load_words :: "string list \<Rightarrow> 'v \<Rightarrow> 'v"
  unknown :: "'v \<Rightarrow> string fset \<Rightarrow> string fset"

section \<open>Ignore policy: \<open>should_ignore_spell_pv\<close>\<close>

fun contains_py :: "string \<Rightarrow> string \<Rightarrow> bool" where
  \<comment> \<open>\<open>sub in s\<close> on strings\<close>
  "contains_py sub [] = (sub = [])"
| "contains_py sub (c # cs) = (take (length sub) (c # cs) = sub \<or> contains_py sub cs)"

definition word_char :: "char \<Rightarrow> bool" where
  \<comment> \<open>the class \<open>\w\<close> of a \<open>str\<close> pattern: alphanumeric characters and the underscore\<close>
  "word_char c \<longleftrightarrow>
     ascii_letter c \<or> ascii_digit c \<or> c = CHR ''_'' \<or>
     c \<in> {CHR 0xAA, CHR 0xB2, CHR 0xB3, CHR 0xB5, CHR 0xB9, CHR 0xBA, CHR 0xBC, CHR 0xBD, CHR 0xBE} \<or>
     (CHR 0xC0 \<le> c \<and> c \<le> CHR 0xD6) \<or> (CHR 0xD8 \<le> c \<and> c \<le> CHR 0xF6) \<or> CHR 0xF8 \<le> c"

definition match_E_digits_at :: "char option \<Rightarrow> string \<Rightarrow> bool" where
  \<comment> \<open>whether \<open>\bE[0-9]+\b\<close> matches at the start of \<open>s\<close>, where \<open>prev\<close> is the character
      before \<open>s\<close> (\<open>None\<close> at the start of the string). Only the longest run of digits can
      end at a word boundary: a shorter run is followed by a digit.\<close>
  "match_E_digits_at prev s =
     (case s of
        [] \<Rightarrow> False
      | c # cs \<Rightarrow>
          c = CHR ''E'' \<and>
          (case prev of None \<Rightarrow> True | Some p \<Rightarrow> \<not> word_char p) \<and>
          takeWhile ascii_digit cs \<noteq> [] \<and>
          (case dropWhile ascii_digit cs of [] \<Rightarrow> True | r # rs \<Rightarrow> \<not> word_char r))"

fun search_E_digits_from :: "char option \<Rightarrow> string \<Rightarrow> bool" where
  "search_E_digits_from prev [] = False"
| "search_E_digits_from prev (c # cs) =
     (match_E_digits_at prev (c # cs) \<or> search_E_digits_from (Some c) cs)"

definition search_E_digits :: "string \<Rightarrow> bool" where
  \<comment> \<open>\<open>re.search(r'\bE[0-9]+\b', value)\<close> finds a match\<close>
  "search_E_digits v = search_E_digits_from None v"

definition ignore_value :: "config_map \<Rightarrow> string \<Rightarrow> error + bool" where
  \<comment> \<open>the body of \<open>if value and isinstance(value, str)\<close>, for such a value \<open>v\<close>; the
      result of falling through it is \<open>False\<close>\<close>
  "ignore_value config v =
     (if contains_py ''dc/'' v \<and> filter isupper v = [] then Inr True
      else if CHR ''@'' \<in> set v then Inr True
      else
        (case (if config_get (spell_check_text_only config) False
               then (case index0 v of Inl e \<Rightarrow> Inl e | Inr c \<Rightarrow> Inr (c \<noteq> CHR 0x22))
               else Inr False) of
           Inl e \<Rightarrow> Inl e
         | Inr True \<Rightarrow> Inr True
         | Inr False \<Rightarrow> if search_E_digits v then Inr True else Inr False))"

definition should_ignore_spell_pv ::
  "'v externals \<Rightarrow> string \<Rightarrow> pyvalue \<Rightarrow> config_map option \<Rightarrow> error + bool" where
  "should_ignore_spell_pv E prop value config0 =
     (let config = (case config0 of None \<Rightarrow> ConfigMap | Some c \<Rightarrow> c) in
      if prop = [] then Inr True
      else
        (case index0 prop of
           Inl e \<Rightarrow> Inl e
         | Inr p0 \<Rightarrow>
             if p0 = CHR ''#'' then Inr True
             else if \<not> is_valid_property E prop then Inr True
             else
               (let ignore_props =
                      (case spell_check_ignore_props config of
                         None \<Rightarrow> DEFAULT_IGNORE_SPELL_PROPS
                       | Some ps \<Rightarrow> ps) in
                if prop \<in> set ignore_props then Inr True
                else
                  (let spell_props = config_get (spell_check_props config) [] in
                   if spell_props \<noteq> [] \<and> prop \<notin> set spell_props then Inr True
                   else
                     (case value of
                        Other s \<Rightarrow> Inr False
                      | Str v \<Rightarrow> if v \<noteq> [] then ignore_value config v else Inr False)))))"

section \<open>Node checker: \<open>spell_check_pvs\<close>\<close>

fun join_py :: "string \<Rightarrow> string list \<Rightarrow> string" where
  \<comment> \<open>\<open>sep.join(xs)\<close>\<close>
  "join_py sep [] = []"
| "join_py sep [x] = x"
| "join_py sep (x # y # ys) = x @ sep @ join_py sep (y # ys)"

datatype call =
  Unknown_prop string
  \<comment> \<open>\<open>spell_checker.unknown([prop])\<close>\<close>
| Get_words_prop string
  \<comment> \<open>\<open>get_words(prop)\<close>\<close>
| Unknown_value string
  \<comment> \<open>\<open>spell_checker.unknown([value])\<close>\<close>
| Get_words_value string
  \<comment> \<open>\<open>get_words(strip_namespace(value))\<close>, with the argument of \<open>get_words\<close>\<close>
| Unknown_words "string fset"
  \<comment> \<open>\<open>spell_checker.unknown(pv_words)\<close>\<close>

record pvs_state =
  misspelled_pvs :: "string \<rightharpoonup> string"
  words_misspelled :: "string fset"
  calls :: "call list"

text \<open>
  The state of the loop of \<open>spell_check_pvs\<close> is the dictionary \<open>misspelled_pvs\<close> and
  the set \<open>words_misspelled\<close>, which the function returns. The field \<open>calls\<close> is no
  variable of the program: it lists, in order, the queries to the spell checker and the
  calls of \<open>get_words\<close> that the loop has made, each named by the place that makes it.
  Logging and counters change no result and are left out.
\<close>

definition prop_words :: "'v externals \<Rightarrow> 'v \<Rightarrow> config_map \<Rightarrow> string \<Rightarrow> string fset \<times> call list" where
  \<comment> \<open>\<open>pv_words\<close> after the check of the property name, and the calls made\<close>
  "prop_words E spell_checker config prop =
     (if \<not> config_get (spell_check_text_only config) False then
        (if unknown E spell_checker {|prop|} \<noteq> {||}
         then (fset_of_list (get_words prop), [Unknown_prop prop, Get_words_prop prop])
         else ({||}, [Unknown_prop prop]))
      else ({||}, []))"

definition value_words :: "'v externals \<Rightarrow> 'v \<Rightarrow> string \<Rightarrow> string fset \<times> call list" where
  \<comment> \<open>the words the check of the value adds to \<open>pv_words\<close>, and the calls made; \<open>value\<close> is
      already \<open>str(value)\<close>\<close>
  "value_words E spell_checker value =
     (if unknown E spell_checker {|value|} \<noteq> {||}
      then (fset_of_list (get_words (strip_namespace E value)),
            [Unknown_value value, Get_words_value (strip_namespace E value)])
      else ({||}, [Unknown_value value]))"

definition pv_words :: "'v externals \<Rightarrow> 'v \<Rightarrow> config_map \<Rightarrow> string \<Rightarrow> pyvalue \<Rightarrow> string fset" where
  \<comment> \<open>the set \<open>pv_words\<close> when the loop body reaches \<open>if pv_words\<close>\<close>
  "pv_words E spell_checker config prop value =
     fst (prop_words E spell_checker config prop) |\<union>| fst (value_words E spell_checker (str_py value))"

definition pv_calls :: "'v externals \<Rightarrow> 'v \<Rightarrow> config_map \<Rightarrow> string \<Rightarrow> pyvalue \<Rightarrow> call list" where
  "pv_calls E spell_checker config prop value =
     snd (prop_words E spell_checker config prop) @ snd (value_words E spell_checker (str_py value))"

definition check_pv ::
  "'v externals \<Rightarrow> 'v \<Rightarrow> config_map \<Rightarrow> string \<Rightarrow> pyvalue \<Rightarrow> pvs_state \<Rightarrow> pvs_state" where
  \<comment> \<open>the loop body of \<open>spell_check_pvs\<close> for a pair that is not ignored\<close>
  "check_pv E spell_checker config prop value st =
     (let words = pv_words E spell_checker config prop value;
          st1 = st\<lparr>calls := calls st @ pv_calls E spell_checker config prop value\<rparr> in
      if words \<noteq> {||} then
        (let error_words = unknown E spell_checker words;
             st2 = st1\<lparr>calls := calls st1 @ [Unknown_words words]\<rparr> in
         if error_words \<noteq> {||} then
           st2\<lparr>words_misspelled := words_misspelled st2 |\<union>| error_words,
               misspelled_pvs := (misspelled_pvs st2)
                 (prop \<mapsto> join_py '', '' (sorted_list_of_fset error_words))\<rparr>
         else st2)
      else st1)"

fun spell_check_pvs_loop ::
  "'v externals \<Rightarrow> 'v \<Rightarrow> config_map option \<Rightarrow> (string \<times> pyvalue) list \<Rightarrow> pvs_state \<Rightarrow>
   error + pvs_state" where
  "spell_check_pvs_loop E spell_checker config [] st = Inr st"
| "spell_check_pvs_loop E spell_checker config ((prop, value) # items) st =
     (case should_ignore_spell_pv E prop value config of
        Inl e \<Rightarrow> Inl e
      | Inr True \<Rightarrow> spell_check_pvs_loop E spell_checker config items st
      | Inr False \<Rightarrow>
          (case config of
             None \<Rightarrow> Inl AttributeError
           | Some c \<Rightarrow>
               spell_check_pvs_loop E spell_checker config items
                 (check_pv E spell_checker c prop value st)))"

definition spell_check_pvs ::
  "'v externals \<Rightarrow> string \<Rightarrow> (string \<times> pyvalue) list \<Rightarrow> 'v \<Rightarrow> config_map option \<Rightarrow>
   error + pvs_state" where
  \<comment> \<open>a node is the list of its items, in the order the dictionary iterates them; on
      \<open>config = None\<close> the access \<open>config.get\<close> raises\<close>
  "spell_check_pvs E dcid node spell_checker config =
     spell_check_pvs_loop E spell_checker config node
       \<lparr>misspelled_pvs = Map.empty, words_misspelled = {||}, calls = []\<rparr>"

section \<open>Dictionary builder: \<open>get_spell_checker\<close>\<close>

definition get_default_spell_config :: "flags \<Rightarrow> config_map" where
  "get_default_spell_config F =
     \<lparr>spell_check_props = None,
      spell_check_ignore_props = Some DEFAULT_IGNORE_SPELL_PROPS,
      spell_check_text_only = (if flag_spell_check_text_only F then Some True else None),
      spell_allowlist = (if flag_spell_allowlist F \<noteq> [] then Some (flag_spell_allowlist F) else None),
      spell_allow_words = None,
      spell_check_output =
        (if flag_spell_error_output F \<noteq> [] then Some (flag_spell_error_output F) else None)\<rparr>"

fun load_files :: "'v externals \<Rightarrow> string list \<Rightarrow> 'v \<Rightarrow> 'v" where
  \<comment> \<open>the loop over \<open>allow_files\<close>\<close>
  "load_files E [] spell_checker = spell_checker"
| "load_files E (file # files) spell_checker =
     load_files E files (load_text_file E file spell_checker)"

fun truthy_words :: "allow_words \<Rightarrow> bool" where
  \<comment> \<open>\<open>if allow_words\<close>\<close>
  "truthy_words (Word_list ws) = (ws \<noteq> [])"
| "truthy_words (Word_str s) = (s \<noteq> [])"

fun words_of_option :: "allow_words \<Rightarrow> string list" where
  \<comment> \<open>\<open>allow_words.split(',')\<close> for a string, the list itself otherwise\<close>
  "words_of_option (Word_list ws) = ws"
| "words_of_option (Word_str s) = split_py (CHR '','') s"

definition get_spell_checker :: "'v externals \<Rightarrow> config_map option \<Rightarrow> 'v" where
  "get_spell_checker E config0 =
     (let config = (case config0 of None \<Rightarrow> get_default_spell_config (FLAGS E) | Some c \<Rightarrow> c);
          allowlist_file = config_get (spell_allowlist config) (DEFAULT_ALLOWLIST E);
          allow_words = config_get (spell_allow_words config) (Word_list [''dcs'', ''dcid'']);
          allow_files = file_get_matching E allowlist_file;
          spell_checker = load_files E allow_files (new_SpellChecker E) in
      if truthy_words allow_words
      then load_words E (words_of_option allow_words) spell_checker
      else spell_checker)"

section \<open>Corpus checker: \<open>spell_check_nodes\<close>\<close>

fun spell_check_nodes_loop ::
  "'v externals \<Rightarrow> 'v \<Rightarrow> config_map \<Rightarrow> (string \<times> (string \<times> pyvalue) list) list \<Rightarrow>
   (string \<rightharpoonup> (string \<rightharpoonup> string)) \<times> string fset \<Rightarrow>
   error + (string \<rightharpoonup> (string \<rightharpoonup> string)) \<times> string fset" where
  \<comment> \<open>the loop over the nodes, with the pair of \<open>node_errors\<close> and \<open>error_words\<close>\<close>
  "spell_check_nodes_loop E spell_checker config [] acc = Inr acc"
| "spell_check_nodes_loop E spell_checker config ((dcid, node) # nodes) (node_errors, error_words) =
     (case spell_check_pvs E dcid node spell_checker (Some config) of
        Inl e \<Rightarrow> Inl e
      | Inr r \<Rightarrow>
          if words_misspelled r \<noteq> {||}
          then spell_check_nodes_loop E spell_checker config nodes
                 (node_errors(dcid \<mapsto> misspelled_pvs r), error_words |\<union>| words_misspelled r)
          else spell_check_nodes_loop E spell_checker config nodes (node_errors, error_words))"

definition spell_check_nodes ::
  "'v externals \<Rightarrow> (string \<times> (string \<times> pyvalue) list) list \<Rightarrow> config_map option \<Rightarrow>
   'v option \<Rightarrow> error + (string \<rightharpoonup> (string \<rightharpoonup> string))" where
  "spell_check_nodes E nodes config0 spell_checker0 =
     (let config = (case config0 of None \<Rightarrow> ConfigMap | Some c \<Rightarrow> c);
          spell_checker =
            (case spell_checker0 of
               None \<Rightarrow> get_spell_checker E (Some config)
             | Some sc \<Rightarrow> sc) in
      case spell_check_nodes_loop E spell_checker config nodes (Map.empty, {||}) of
        Inl e \<Rightarrow> Inl e
      | Inr (node_errors, error_words) \<Rightarrow> Inr node_errors)"

section \<open>The ignore policy in the words of the specification\<close>

definition begins_with :: "char \<Rightarrow> string \<Rightarrow> bool" where
  "begins_with ch s = (case s of [] \<Rightarrow> False | c # cs \<Rightarrow> c = ch)"

definition effective_ignore_props :: "config_map \<Rightarrow> string list" where
  \<comment> \<open>the configured \<open>spell_check_ignore_props\<close>, or the built-in default set when unset\<close>
  "effective_ignore_props config =
     (case spell_check_ignore_props config of None \<Rightarrow> DEFAULT_IGNORE_SPELL_PROPS | Some ps \<Rightarrow> ps)"

definition property_exempt :: "'v externals \<Rightarrow> string \<Rightarrow> config_map \<Rightarrow> bool" where
  \<comment> \<open>rules 1 to 5 of the policy, on the property alone\<close>
  "property_exempt E prop config \<longleftrightarrow>
     prop = [] \<or>
     begins_with (CHR ''#'') prop \<or>
     \<not> is_valid_property E prop \<or>
     prop \<in> set (effective_ignore_props config) \<or>
     (config_get (spell_check_props config) [] \<noteq> [] \<and>
      prop \<notin> set (config_get (spell_check_props config) []))"

definition value_exempt :: "config_map \<Rightarrow> string \<Rightarrow> bool" where
  \<comment> \<open>rules 6a to 6d of the policy, on a string value\<close>
  "value_exempt config v \<longleftrightarrow>
     (contains_py ''dc/'' v \<and> \<not> (\<exists>c \<in> set v. isupper c)) \<or>
     CHR ''@'' \<in> set v \<or>
     (config_get (spell_check_text_only config) False \<and> \<not> begins_with (CHR 0x22) v) \<or>
     search_E_digits v"

definition is_exempt :: "'v externals \<Rightarrow> string \<Rightarrow> pyvalue \<Rightarrow> config_map \<Rightarrow> bool" where
  \<comment> \<open>the policy as the specification words it: the value rules apply when the value is a
      string\<close>
  "is_exempt E prop value config \<longleftrightarrow>
     property_exempt E prop config \<or>
     (case value of Other s \<Rightarrow> False | Str v \<Rightarrow> value_exempt config v)"

definition is_exempt_nonempty :: "'v externals \<Rightarrow> string \<Rightarrow> pyvalue \<Rightarrow> config_map \<Rightarrow> bool" where
  \<comment> \<open>the same policy with the value rules applied to non-empty strings only\<close>
  "is_exempt_nonempty E prop value config \<longleftrightarrow>
     property_exempt E prop config \<or>
     (case value of Other s \<Rightarrow> False | Str v \<Rightarrow> v \<noteq> [] \<and> value_exempt config v)"

section \<open>Terms of the statements\<close>

definition config_or_default :: "config_map option \<Rightarrow> config_map" where
  \<comment> \<open>the configuration after \<open>if not config: config = ConfigMap()\<close>\<close>
  "config_or_default config0 = (case config0 of None \<Rightarrow> ConfigMap | Some c \<Rightarrow> c)"

definition spell_config_or_default :: "'v externals \<Rightarrow> config_map option \<Rightarrow> config_map" where
  \<comment> \<open>the configuration \<open>get_spell_checker\<close> reads: the one from the flags when none is given\<close>
  "spell_config_or_default E config0 =
     (case config0 of None \<Rightarrow> get_default_spell_config (FLAGS E) | Some c \<Rightarrow> c)"

definition checker_or_default :: "'v externals \<Rightarrow> config_map option \<Rightarrow> 'v option \<Rightarrow> 'v" where
  \<comment> \<open>the spell checker \<open>spell_check_nodes\<close> works with\<close>
  "checker_or_default E config0 spell_checker0 =
     (case spell_checker0 of
        None \<Rightarrow> get_spell_checker E (Some (config_or_default config0))
      | Some sc \<Rightarrow> sc)"

definition unrecognized_words ::
  "'v externals \<Rightarrow> 'v \<Rightarrow> config_map \<Rightarrow> string \<Rightarrow> pyvalue \<Rightarrow> string fset" where
  \<comment> \<open>the unrecognized words of a pair that is not ignored: \<open>error_words\<close> when the loop body
      computes it, and no word when \<open>pv_words\<close> is empty\<close>
  "unrecognized_words E spell_checker config prop value =
     (if pv_words E spell_checker config prop value = {||} then {||}
      else unknown E spell_checker (pv_words E spell_checker config prop value))"

definition has_errors ::
  "'v externals \<Rightarrow> 'v \<Rightarrow> config_map \<Rightarrow> string \<Rightarrow> (string \<times> pyvalue) list \<Rightarrow> bool" where
  \<comment> \<open>the node-level set of misspelled words of the node is not empty\<close>
  "has_errors E spell_checker config dcid node \<longleftrightarrow>
     (\<exists>r. spell_check_pvs E dcid node spell_checker (Some config) = Inr r \<and>
          words_misspelled r \<noteq> {||})"

fun is_prop_call :: "call \<Rightarrow> bool" where
  \<comment> \<open>the calls that query or tokenize a property name\<close>
  "is_prop_call (Unknown_prop p) = True"
| "is_prop_call (Get_words_prop p) = True"
| "is_prop_call k = False"

definition inline_allow_words :: "config_map \<Rightarrow> string list" where
  \<comment> \<open>the words of \<open>spell_allow_words\<close> that \<open>get_spell_checker\<close> loads: \<open>dcs\<close> and \<open>dcid\<close>
      when the option is unset, none when it is empty\<close>
  "inline_allow_words config =
     (let allow_words = config_get (spell_allow_words config) (Word_list [''dcs'', ''dcid'']) in
      if truthy_words allow_words then words_of_option allow_words else [])"

section \<open>Collaborators for the examples\<close>

text \<open>
  Modelled from the spec: the collaborators that are not among the source files, for the
  examples only. The Vocabulary (the \<open>SpellChecker\<close> library) is the set of recognized
  words, as the specification describes it: \<open>unknown\<close> returns the subset of its argument
  that is not recognized, and loading words adds them. The specification leaves the
  property-name validator (\<open>pv_utils.is_valid_property\<close>), the namespace stripper
  (\<open>strip_namespace\<close>) and the file matcher (\<open>file_util.file_get_matching\<close>) open; here
  the validator accepts the names that begin with a lower-case letter, the stripper removes
  a leading \<open>dcid:\<close>, and the matcher returns the files of the given name. The parameters
  are the base lexicon and the files, each with the words it holds.
\<close>

definition example_env :: "string list \<Rightarrow> (string \<times> string list) list \<Rightarrow> string set externals" where
  "example_env lexicon files =
     \<lparr>is_valid_property = (\<lambda>p. case p of [] \<Rightarrow> False | c # cs \<Rightarrow> ascii_lower c),
      strip_namespace = (\<lambda>v. if take 5 v = ''dcid:'' then drop 5 v else v),
      file_get_matching = (\<lambda>pattern. filter (\<lambda>f. f = pattern) (map fst files)),
      DEFAULT_ALLOWLIST = ''words_allowlist.txt'',
      FLAGS = \<lparr>flag_spell_allowlist = ''words_allowlist.txt'', flag_spell_error_output = [],
                flag_spell_check_text_only = False\<rparr>,
      new_SpellChecker = set lexicon,
      load_text_file = (\<lambda>file v. v \<union> set (concat (map snd (filter (\<lambda>fw. fst fw = file) files)))),
      load_words = (\<lambda>ws v. v \<union> set ws),
      unknown = (\<lambda>v ws. ffilter (\<lambda>w. w \<notin> v) ws)\<rparr>"

definition text_only_config :: config_map where
  \<comment> \<open>a configuration with only \<open>spell_check_text_only\<close> set\<close>
  "text_only_config = ConfigMap\<lparr>spell_check_text_only := Some True\<rparr>"

definition small_env :: "string set externals" where
  \<comment> \<open>a lexicon of three words and no allow-list file\<close>
  "small_env = example_env [''population'', ''count'', ''name''] []"

section \<open>Properties of the tokenizer\<close>

lemma words_loop_concat:
  "words_loop ts acc = acc @ concat (map camel_split (filter (\<lambda>w. w \<noteq> []) ts))"
  by (induction ts arbitrary: acc) auto

lemma text_words_loop_filter:
  "text_words_loop ws acc = acc @ filter keep_word ws"
  by (induction ws arbitrary: acc) auto

lemma set_get_words:
  "set (get_words value) =
     {w. keep_word w \<and> (\<exists>t \<in> set (raw_tokens value). t \<noteq> [] \<and> w \<in> set (camel_split t))}"
  by (auto simp: get_words_def words_loop_concat text_words_loop_filter)

lemma split_py_not_Nil: "split_py sep s \<noteq> []"
  by (induction s) (auto split: list.splits)

lemma split_py_chars:
  "t \<in> set (split_py sep s) \<Longrightarrow> c \<in> set t \<Longrightarrow> c \<in> set s \<and> c \<noteq> sep"
proof (induction s arbitrary: t)
  case Nil
  then show ?case by simp
next
  case (Cons a s)
  show ?case
  proof (cases "a = sep")
    case True
    with Cons show ?thesis by auto
  next
    case False
    obtain w ws where sp: "split_py sep s = w # ws"
      using split_py_not_Nil [of sep s] by (cases "split_py sep s") auto
    from Cons.prems False sp have "t = a # w \<or> t \<in> set ws" by auto
    then show ?thesis
    proof
      assume t: "t = a # w"
      show ?thesis
      proof (cases "c = a")
        case True
        with False show ?thesis by simp
      next
        case False
        with t Cons.prems have "c \<in> set w" by simp
        moreover have "w \<in> set (split_py sep s)" using sp by simp
        ultimately show ?thesis using Cons.IH by auto
      qed
    next
      assume "t \<in> set ws"
      then have "t \<in> set (split_py sep s)" using sp by simp
      then show ?thesis using Cons.IH Cons.prems by auto
    qed
  qed
qed

lemma ascii_letter_not_space: "\<not> ascii_letter (CHR '' '')"
  by (simp add: ascii_letter_def ascii_upper_def ascii_lower_def)

lemma raw_tokens_letters:
  assumes "t \<in> set (raw_tokens value)" and "c \<in> set t"
  shows "ascii_letter c"
proof -
  from assms have "c \<in> set (sub_non_letters value)" and "c \<noteq> CHR '' ''"
    using split_py_chars unfolding raw_tokens_def by blast+
  then show ?thesis
    by (auto simp: sub_non_letters_def split: if_splits)
qed

lemma camel_split_chars:
  "w \<in> set (camel_split t) \<Longrightarrow> set w \<subseteq> set t"
proof -
  assume "w \<in> set (camel_split t)"
  then obtain s e where "w = slice_py t s e"
    by (auto simp: camel_split_def)
  then show ?thesis
    by (auto simp: slice_py_def dest!: in_set_takeD in_set_dropD)
qed

lemma ascii_digit_not_letter: "ascii_digit c \<Longrightarrow> \<not> ascii_letter c"
  by (auto simp: ascii_digit_def ascii_letter_def ascii_upper_def ascii_lower_def
      less_eq_char_def)

lemma camel_starts_second:
  "m \<in> set (camel_starts i w) \<Longrightarrow>
     i \<le> m \<and> m + 1 - i < length w \<and>
     (ascii_upper (w ! (m + 1 - i)) \<or> ascii_digit (w ! (m + 1 - i)))"
proof (induction i w rule: camel_starts.induct)
  case (1 i a b cs)
  show ?case
  proof (cases "\<not> ascii_upper a \<and> (ascii_upper b \<or> ascii_digit b)")
    case True
    with "1.prems" have "m = i \<or> m \<in> set (camel_starts (i + 2) cs)" by auto
    then show ?thesis
    proof
      assume "m = i"
      with True show ?thesis by auto
    next
      assume "m \<in> set (camel_starts (i + 2) cs)"
      with "1.IH"(1) True
      have h: "i + 2 \<le> m" "m + 1 - (i + 2) < length cs"
        "ascii_upper (cs ! (m + 1 - (i + 2))) \<or> ascii_digit (cs ! (m + 1 - (i + 2)))"
        by auto
      have "m + 1 - i = Suc (Suc (m + 1 - (i + 2)))" using h(1) by simp
      with h show ?thesis by simp
    qed
  next
    case False
    with "1.prems" have "m \<in> set (camel_starts (i + 1) (b # cs))" by auto
    with "1.IH"(2) False
    have h: "i + 1 \<le> m" "m + 1 - (i + 1) < length (b # cs)"
      "ascii_upper ((b # cs) ! (m + 1 - (i + 1))) \<or> ascii_digit ((b # cs) ! (m + 1 - (i + 1)))"
      by auto
    have "m + 1 - i = Suc (m + 1 - (i + 1))" using h(1) by simp
    with h show ?thesis by simp
  qed
qed simp_all

text \<open>
  C2. The tokenizer maps \<open>geoStateId\<close> to the words \<open>geo\<close>, \<open>State\<close>, \<open>Id\<close>, in this
  order, and maps \<open>GDP\<close> to the empty list.
\<close>

theorem get_words_examples:
  "get_words ''geoStateId'' = [''geo'', ''State'', ''Id''] \<and> get_words ''GDP'' = []"
  by (simp add: get_words_def raw_tokens_def sub_non_letters_def ascii_letter_def
      ascii_upper_def ascii_lower_def ascii_digit_def isupper_def camel_split_def
      split_pos_def slice_py_def keep_word_def)

text \<open>
  C3. For every input string, every word returned by \<open>get_words\<close> has at least two
  characters, and its first two characters are not both upper case.
\<close>

theorem get_words_length_and_acronyms:
  "\<forall>w \<in> set (get_words value). 2 \<le> length w \<and> \<not> (isupper (w ! 0) \<and> isupper (w ! 1))"
  by (simp add: set_get_words keep_word_def)

theorem get_words_length_and_acronyms_witness:
  "get_words ''geoStateId GDP'' = [''geo'', ''State'', ''Id''] \<and>
   2 \<le> length ''State'' \<and> \<not> (isupper (''State'' ! 0) \<and> isupper (''State'' ! 1))"
proof -
  have w: "get_words ''geoStateId GDP'' = [''geo'', ''State'', ''Id'']"
    by (simp add: get_words_def raw_tokens_def sub_non_letters_def ascii_letter_def
        ascii_upper_def ascii_lower_def ascii_digit_def isupper_def camel_split_def
        split_pos_def slice_py_def keep_word_def)
  then have "''State'' \<in> set (get_words ''geoStateId GDP'')" by simp
  with get_words_length_and_acronyms [of "''geoStateId GDP''"] w show ?thesis by blast
qed

text \<open>
  C10. For every input string, every word returned by \<open>get_words\<close> consists of ASCII
  letters only. Every raw token that reaches the CamelCase split is made of ASCII letters,
  so wherever the pattern \<open>[^A-Z][A-Z0-9]\<close> matches, its second character is an upper-case
  letter and never a digit, and no returned word contains a digit.
\<close>

theorem get_words_letters_only:
  "(\<forall>w \<in> set (get_words value). \<forall>c \<in> set w. ascii_letter c \<and> \<not> ascii_digit c) \<and>
   (\<forall>t \<in> set (raw_tokens value).
      (\<forall>c \<in> set t. ascii_letter c) \<and>
      (\<forall>m \<in> set (camel_starts 0 t). ascii_upper (t ! (m + 1)) \<and> \<not> ascii_digit (t ! (m + 1))))"
proof (intro conjI ballI)
  fix w c
  assume "w \<in> set (get_words value)" and c: "c \<in> set w"
  then obtain t where "t \<in> set (raw_tokens value)" and "w \<in> set (camel_split t)"
    by (auto simp: set_get_words)
  with c have "ascii_letter c"
    using raw_tokens_letters camel_split_chars by blast
  then show "ascii_letter c" and "\<not> ascii_digit c"
    using ascii_digit_not_letter by blast+
next
  fix t c
  assume "t \<in> set (raw_tokens value)" and "c \<in> set t"
  then show "ascii_letter c" by (rule raw_tokens_letters)
next
  fix t m
  assume t: "t \<in> set (raw_tokens value)" and m: "m \<in> set (camel_starts 0 t)"
  from camel_starts_second [OF m]
  have len: "m + 1 < length t"
    and cls: "ascii_upper (t ! (m + 1)) \<or> ascii_digit (t ! (m + 1))"
    by simp_all
  from len have "t ! (m + 1) \<in> set t" by simp
  with t have "ascii_letter (t ! (m + 1))" by (rule raw_tokens_letters)
  then have nd: "\<not> ascii_digit (t ! (m + 1))"
    using ascii_digit_not_letter by blast
  with cls show "ascii_upper (t ! (m + 1))" by simp
  from nd show "\<not> ascii_digit (t ! (m + 1))" .
qed

theorem get_words_letters_only_witness:
  "get_words ''a1geoState'' = [''geo'', ''State''] \<and>
   raw_tokens ''a1geoState'' = [''a'', ''geoState''] \<and>
   camel_starts 0 ''geoState'' = [2] \<and>
   ascii_letter (CHR ''S'') \<and> \<not> ascii_digit (CHR ''S'') \<and>
   ascii_upper (''geoState'' ! (2 + 1)) \<and> \<not> ascii_digit (''geoState'' ! (2 + 1))"
proof -
  have w: "get_words ''a1geoState'' = [''geo'', ''State'']"
    by (simp add: get_words_def raw_tokens_def sub_non_letters_def ascii_letter_def
        ascii_upper_def ascii_lower_def ascii_digit_def isupper_def camel_split_def
        split_pos_def slice_py_def keep_word_def)
  have r: "raw_tokens ''a1geoState'' = [''a'', ''geoState'']"
    by (simp add: raw_tokens_def sub_non_letters_def ascii_letter_def
        ascii_upper_def ascii_lower_def)
  have m: "camel_starts 0 ''geoState'' = [2]"
    by (simp add: ascii_upper_def ascii_digit_def)
  note inst = get_words_letters_only [of "''a1geoState''"]
  have "''State'' \<in> set (get_words ''a1geoState'')" and "CHR ''S'' \<in> set ''State''"
    using w by simp_all
  with inst have c: "ascii_letter (CHR ''S'') \<and> \<not> ascii_digit (CHR ''S'')" by blast
  have "''geoState'' \<in> set (raw_tokens ''a1geoState'')"
    and "2 \<in> set (camel_starts 0 ''geoState'')"
    using r m by simp_all
  with inst have "ascii_upper (''geoState'' ! (2 + 1)) \<and> \<not> ascii_digit (''geoState'' ! (2 + 1))"
    by blast
  with w r m c show ?thesis by blast
qed

section \<open>Evaluation on concrete inputs\<close>

lemma ffilter_finsert:
  "ffilter P (finsert x A) = (if P x then finsert x (ffilter P A) else ffilter P A)"
  by auto

lemma ffilter_fempty: "ffilter P {||} = {||}"
  by auto

lemmas eval_words =
  get_words_def raw_tokens_def sub_non_letters_def camel_split_def split_pos_def slice_py_def
  keep_word_def isupper_def ascii_upper_def ascii_lower_def ascii_digit_def ascii_letter_def

lemmas eval_policy =
  should_ignore_spell_pv_def ignore_value_def index0_def config_get_def
  DEFAULT_IGNORE_SPELL_PROPS_def search_E_digits_def match_E_digits_at_def word_char_def

lemmas eval_spec =
  is_exempt_def is_exempt_nonempty_def property_exempt_def value_exempt_def begins_with_def
  effective_ignore_props_def config_or_default_def

lemmas eval_check =
  spell_check_pvs_def check_pv_def pv_words_def pv_calls_def prop_words_def value_words_def
  ffilter_finsert ffilter_fempty sorted_list_of_fset.rep_eq Let_def

lemmas eval_env = small_env_def example_env_def ConfigMap_def text_only_config_def

section \<open>Properties of the ignore policy\<close>

lemma ignore_value_eq:
  "v \<noteq> [] \<Longrightarrow> ignore_value config v = Inr (value_exempt config v)"
  by (cases v) (auto simp: ignore_value_def value_exempt_def index0_def begins_with_def
      filter_empty_conv split: bool.splits)

lemma should_ignore_eq:
  "should_ignore_spell_pv E prop value config0 =
     Inr (is_exempt_nonempty E prop value (config_or_default config0))"
proof (cases "prop")
  case Nil
  then show ?thesis
    by (simp add: should_ignore_spell_pv_def is_exempt_nonempty_def property_exempt_def)
next
  case (Cons p0 ps)
  show ?thesis
  proof (cases "value")
    case (Str v)
    with Cons show ?thesis
      by (auto simp: should_ignore_spell_pv_def is_exempt_nonempty_def property_exempt_def
          effective_ignore_props_def index0_def begins_with_def Let_def ignore_value_eq
          config_or_default_def)
  next
    case (Other s)
    with Cons show ?thesis
      by (auto simp: should_ignore_spell_pv_def is_exempt_nonempty_def property_exempt_def
          effective_ignore_props_def index0_def begins_with_def Let_def config_or_default_def)
  qed
qed

lemma is_exempt_nonempty_eq:
  "value \<noteq> Str [] \<Longrightarrow> is_exempt_nonempty E prop value config = is_exempt E prop value config"
  by (cases "value") (auto simp: is_exempt_nonempty_def is_exempt_def)

text \<open>
  C1 (amended). For every property, value and configuration, \<open>should_ignore_spell_pv\<close>
  returns a boolean, and it returns true if and only if the property is empty, or begins
  with \<open>#\<close>, or fails the property-name validity check, or is in the effective ignore-set,
  or the configured \<open>spell_check_props\<close> is non-empty and does not contain it, or the value
  is a non-empty string that contains \<open>dc/\<close> and no upper-case letter, or contains \<open>@\<close>, or
  does not begin with a double quote while \<open>spell_check_text_only\<close> is enabled, or matches
  \<open>\bE[0-9]+\b\<close>. For every value but the empty string this is the policy as the
  specification words it.
\<close>

theorem should_ignore_spell_pv_policy:
  "should_ignore_spell_pv E prop value config0 =
     Inr (is_exempt_nonempty E prop value (config_or_default config0)) \<and>
   (value \<noteq> Str [] \<longrightarrow>
      should_ignore_spell_pv E prop value config0 =
        Inr (is_exempt E prop value (config_or_default config0)))"
  using should_ignore_eq [of E "prop" "value" config0]
    is_exempt_nonempty_eq [of "value" E "prop" "config_or_default config0"]
  by simp

text \<open>
  C1 as stated fails on the empty string value when \<open>spell_check_text_only\<close> is enabled:
  the value is a string that does not begin with a double quote, so the stated policy
  exempts the pair, and the function returns false.
\<close>

theorem is_exempt_counterexample:
  "should_ignore_spell_pv small_env ''name'' (Str []) (Some text_only_config) = Inr False \<and>
   is_exempt small_env ''name'' (Str []) text_only_config"
  by (simp add: eval_policy eval_spec eval_env ascii_lower_def)

theorem should_ignore_spell_pv_policy_witness:
  "should_ignore_spell_pv small_env ''dcid'' (Str ''dc/vp8cbt6k79t94'') None = Inr True \<and>
   should_ignore_spell_pv small_env ''dcid'' (Str ''dc/g/Root'') None = Inr False \<and>
   should_ignore_spell_pv small_env ''name'' (Str []) (Some text_only_config) = Inr False"
proof -
  have a: "is_exempt small_env ''dcid'' (Str ''dc/vp8cbt6k79t94'') ConfigMap"
    by (simp add: is_exempt_def value_exempt_def isupper_def ascii_upper_def)
  have b: "\<not> is_exempt small_env ''dcid'' (Str ''dc/g/Root'') ConfigMap"
    by (simp add: eval_spec eval_policy eval_env isupper_def ascii_upper_def ascii_lower_def)
  have c: "\<not> is_exempt_nonempty small_env ''name'' (Str []) text_only_config"
    by (simp add: eval_spec eval_policy eval_env ascii_lower_def)
  show ?thesis
    using should_ignore_spell_pv_policy [of small_env "''dcid''" "Str ''dc/vp8cbt6k79t94''" None]
      should_ignore_spell_pv_policy [of small_env "''dcid''" "Str ''dc/g/Root''" None]
      should_ignore_spell_pv_policy [of small_env "''name''" "Str []" "Some text_only_config"]
      a b c
    by (auto simp: config_or_default_def)
qed

text \<open>
  C9. \<open>should_ignore_spell_pv\<close> returns a boolean for every property, value and
  configuration: no first-character access fails. When the value is the empty string or
  is not a string, the result is that of the property rules alone; so under
  \<open>spell_check_text_only\<close> an empty string value is not exempt, though it does not begin
  with a double quote.
\<close>

theorem should_ignore_spell_pv_empty_value:
  "(\<exists>b. should_ignore_spell_pv E prop value config0 = Inr b) \<and>
   should_ignore_spell_pv E prop (Str []) config0 =
     Inr (property_exempt E prop (config_or_default config0)) \<and>
   should_ignore_spell_pv E prop (Other s) config0 =
     Inr (property_exempt E prop (config_or_default config0))"
  by (simp add: should_ignore_eq is_exempt_nonempty_def)

theorem should_ignore_spell_pv_empty_value_witness:
  "config_get (spell_check_text_only text_only_config) False \<and>
   \<not> begins_with (CHR 0x22) [] \<and>
   should_ignore_spell_pv small_env ''name'' (Str []) (Some text_only_config) = Inr False \<and>
   should_ignore_spell_pv small_env ''name'' (Other ''[]'') (Some text_only_config) = Inr False \<and>
   should_ignore_spell_pv small_env ''name'' (Str ''x'') (Some text_only_config) = Inr True"
proof -
  have c: "\<not> property_exempt small_env ''name'' text_only_config"
    by (simp add: eval_spec eval_policy eval_env ascii_lower_def)
  have d: "should_ignore_spell_pv small_env ''name'' (Str ''x'') (Some text_only_config) = Inr True"
    by (simp add: eval_policy eval_env ascii_lower_def isupper_def ascii_upper_def)
  show ?thesis
    using should_ignore_spell_pv_empty_value
      [of small_env "''name''" _ "Some text_only_config" "''[]''"] c d
    by (simp add: config_or_default_def begins_with_def text_only_config_def config_get_def)
qed

section \<open>Properties of the node checker\<close>

lemma check_pv_pvs:
  "misspelled_pvs (check_pv E sc c p v st) =
     (if unrecognized_words E sc c p v = {||} then misspelled_pvs st
      else (misspelled_pvs st)
             (p \<mapsto> join_py '', '' (sorted_list_of_fset (unrecognized_words E sc c p v))))"
  by (simp add: check_pv_def unrecognized_words_def Let_def)

lemma check_pv_words:
  "words_misspelled (check_pv E sc c p v st) =
     words_misspelled st |\<union>| unrecognized_words E sc c p v"
  by (simp add: check_pv_def unrecognized_words_def Let_def)

lemma check_pv_calls:
  "calls (check_pv E sc c p v st) =
     calls st @ pv_calls E sc c p v @
       (if pv_words E sc c p v = {||} then [] else [Unknown_words (pv_words E sc c p v)])"
  by (simp add: check_pv_def Let_def)

lemma loop_Some_total:
  "\<exists>r. spell_check_pvs_loop E sc (Some c) items st = Inr r"
  by (induction items arbitrary: st) (auto simp: should_ignore_eq split: bool.splits)

lemma loop_Cons_Some:
  "spell_check_pvs_loop E sc (Some c) ((p, v) # items) st =
     spell_check_pvs_loop E sc (Some c) items
       (if is_exempt_nonempty E p v c then st else check_pv E sc c p v st)"
  by (simp add: should_ignore_eq config_or_default_def)

lemma loop_None:
  "spell_check_pvs_loop E sc None items st =
     (if \<exists>(p, v) \<in> set items. \<not> is_exempt_nonempty E p v ConfigMap then Inl AttributeError
      else Inr st)"
  by (induction items arbitrary: st)
    (auto simp: should_ignore_eq config_or_default_def split: bool.splits)

lemma pvs_total: "\<exists>r. spell_check_pvs E dcid node sc (Some c) = Inr r"
  unfolding spell_check_pvs_def by (rule loop_Some_total)

lemma loop_pvs:
  assumes "spell_check_pvs_loop E sc (Some c) items st = Inr r"
    and "distinct (map fst items)"
  shows "misspelled_pvs r p =
     (case map_of items p of
        None \<Rightarrow> misspelled_pvs st p
      | Some v \<Rightarrow>
          if is_exempt_nonempty E p v c \<or> unrecognized_words E sc c p v = {||}
          then misspelled_pvs st p
          else Some (join_py '', '' (sorted_list_of_fset (unrecognized_words E sc c p v))))"
  using assms
proof (induction items arbitrary: st)
  case Nil
  then show ?case by simp
next
  case (Cons item items)
  obtain q w where item: "item = (q, w)" by (cases item)
  let ?st = "if is_exempt_nonempty E q w c then st else check_pv E sc c q w st"
  from Cons.prems item have run: "spell_check_pvs_loop E sc (Some c) items ?st = Inr r"
    by (simp only: loop_Cons_Some)
  from Cons.prems item have d: "distinct (map fst items)" and q: "q \<notin> fst ` set items"
    by auto
  note IH = Cons.IH [OF run d]
  show ?case
  proof (cases "p = q")
    case True
    with q have "map_of items p = None"
      by (simp add: map_of_eq_None_iff)
    with IH True item show ?thesis
      by (simp add: check_pv_pvs)
  next
    case False
    with IH item show ?thesis
      by (auto simp: check_pv_pvs split: option.splits)
  qed
qed

lemma loop_words_iff:
  assumes "spell_check_pvs_loop E sc (Some c) items st = Inr r"
    and "words_misspelled st = {||} \<longleftrightarrow> misspelled_pvs st = Map.empty"
  shows "words_misspelled r = {||} \<longleftrightarrow> misspelled_pvs r = Map.empty"
  using assms
proof (induction items arbitrary: st)
  case Nil
  then show ?case by simp
next
  case (Cons item items)
  obtain q w where item: "item = (q, w)" by (cases item)
  let ?st = "if is_exempt_nonempty E q w c then st else check_pv E sc c q w st"
  from Cons.prems item have run: "spell_check_pvs_loop E sc (Some c) items ?st = Inr r"
    by (simp only: loop_Cons_Some)
  have "words_misspelled ?st = {||} \<longleftrightarrow> misspelled_pvs ?st = Map.empty"
    using Cons.prems(2) by (auto simp: check_pv_pvs check_pv_words)
  with run show ?case by (rule Cons.IH)
qed

lemma pvs_words_iff:
  assumes "spell_check_pvs E dcid node sc (Some c) = Inr r"
  shows "words_misspelled r = {||} \<longleftrightarrow> misspelled_pvs r = Map.empty"
  using assms unfolding spell_check_pvs_def
  by (rule loop_words_iff) simp

lemma loop_calls:
  assumes "spell_check_pvs_loop E sc (Some c) items st = Inr r"
    and "config_get (spell_check_text_only c) False"
    and "\<forall>k \<in> set (calls st). \<not> is_prop_call k"
  shows "\<forall>k \<in> set (calls r). \<not> is_prop_call k"
  using assms
proof (induction items arbitrary: st)
  case Nil
  then show ?case by simp
next
  case (Cons item items)
  obtain q w where item: "item = (q, w)" by (cases item)
  let ?st = "if is_exempt_nonempty E q w c then st else check_pv E sc c q w st"
  from Cons.prems item have run: "spell_check_pvs_loop E sc (Some c) items ?st = Inr r"
    by (simp only: loop_Cons_Some)
  have "\<forall>k \<in> set (calls ?st). \<not> is_prop_call k"
    using Cons.prems(2,3)
    by (auto simp: check_pv_calls pv_calls_def prop_words_def value_words_def)
  with run Cons.prems(2) show ?case by (rule Cons.IH)
qed

lemma join_py_Nil_iff: "sep \<noteq> [] \<Longrightarrow> join_py sep xs = [] \<longleftrightarrow> xs = [] \<or> xs = [[]]"
  by (induction sep xs rule: join_py.induct) auto

lemma get_words_no_empty: "[] \<notin> set (get_words s)"
  by (auto simp: set_get_words keep_word_def)

lemma pv_words_no_empty: "[] |\<notin>| pv_words E sc c p v"
  by (auto simp: pv_words_def prop_words_def value_words_def fset_of_list_elem
      get_words_no_empty)

lemma entry_not_empty:
  assumes "\<forall>ws. [] |\<notin>| ws \<longrightarrow> [] |\<notin>| unknown E sc ws"
    and "unrecognized_words E sc c p v \<noteq> {||}"
  shows "join_py '', '' (sorted_list_of_fset (unrecognized_words E sc c p v)) \<noteq> []"
proof -
  let ?ws = "unrecognized_words E sc c p v"
  have ne: "[] |\<notin>| ?ws"
    using assms(1) pv_words_no_empty [of E sc c p v]
    by (auto simp: unrecognized_words_def)
  have s: "set (sorted_list_of_fset ?ws) = fset ?ws" by simp
  have "sorted_list_of_fset ?ws \<noteq> []"
  proof
    assume "sorted_list_of_fset ?ws = []"
    with s have "fset ?ws = {}" by simp
    then have "?ws = {||}" by (metis bot_fset.rep_eq fset_inject)
    with assms(2) show False by simp
  qed
  moreover have "sorted_list_of_fset ?ws \<noteq> [[]]"
  proof
    assume "sorted_list_of_fset ?ws = [[]]"
    with s have "fset ?ws = {[]}" by simp
    then have "[] |\<in>| ?ws" by simp
    with ne show False by simp
  qed
  ultimately show ?thesis by (simp add: join_py_Nil_iff)
qed

text \<open>
  C4. For every node (a dictionary, so its property names are distinct) on which
  \<open>spell_check_pvs\<close> returns, and every property: the error map has an entry for the
  property exactly when the node holds the property, the pair is not ignored and its set
  of unrecognized words is not empty, and the entry is then the sorted list of these words
  joined by a comma and a space. No entry is the empty string, provided the spell checker
  reports no empty word when it is asked about none.
\<close>

theorem spell_check_pvs_entries:
  assumes "spell_check_pvs E dcid node spell_checker config0 = Inr r"
    and "distinct (map fst node)"
  shows "misspelled_pvs r prop =
     (case map_of node prop of
        None \<Rightarrow> None
      | Some value \<Rightarrow>
          if is_exempt_nonempty E prop value (config_or_default config0) \<or>
             unrecognized_words E spell_checker (config_or_default config0) prop value = {||}
          then None
          else Some (join_py '', '' (sorted_list_of_fset
                 (unrecognized_words E spell_checker (config_or_default config0) prop value)))) \<and>
     ((\<forall>ws. [] |\<notin>| ws \<longrightarrow> [] |\<notin>| unknown E spell_checker ws) \<longrightarrow>
        misspelled_pvs r prop \<noteq> Some [])"
proof -
  let ?c = "config_or_default config0"
  have char: "misspelled_pvs r prop =
     (case map_of node prop of
        None \<Rightarrow> None
      | Some value \<Rightarrow>
          if is_exempt_nonempty E prop value ?c \<or>
             unrecognized_words E spell_checker ?c prop value = {||}
          then None
          else Some (join_py '', '' (sorted_list_of_fset
                 (unrecognized_words E spell_checker ?c prop value))))"
  proof (cases config0)
    case (Some c)
    with assms(1) have run: "spell_check_pvs_loop E spell_checker (Some c) node
        \<lparr>misspelled_pvs = Map.empty, words_misspelled = {||}, calls = []\<rparr> = Inr r"
      by (simp add: spell_check_pvs_def)
    from loop_pvs [OF run assms(2), of "prop"] Some show ?thesis
      by (simp add: config_or_default_def split: option.splits)
  next
    case None
    with assms(1) have all: "\<forall>(p, v) \<in> set node. is_exempt_nonempty E p v ConfigMap"
      and r: "misspelled_pvs r = Map.empty"
      by (auto simp: spell_check_pvs_def loop_None split: if_splits)
    show ?thesis
    proof (cases "map_of node prop")
      case None
      with r show ?thesis by simp
    next
      case (Some v)
      then have "(prop, v) \<in> set node" by (rule map_of_SomeD)
      with all have "is_exempt_nonempty E prop v ConfigMap" by auto
      with r Some \<open>config0 = None\<close> show ?thesis
        by (simp add: config_or_default_def)
    qed
  qed
  have "misspelled_pvs r prop \<noteq> Some []"
    if h: "\<forall>ws. [] |\<notin>| ws \<longrightarrow> [] |\<notin>| unknown E spell_checker ws"
    using char entry_not_empty [OF h, of ?c "prop"]
    by (auto split: option.splits if_splits)
  with char show ?thesis by blast
qed

theorem spell_check_pvs_entries_witness:
  "\<exists>r. spell_check_pvs small_env ''dc/1''
         [(''name'', Str ''Populaton counnt''), (''url'', Str ''htpp'')]
         (new_SpellChecker small_env) (Some ConfigMap) = Inr r \<and>
       misspelled_pvs r ''name'' = Some ''Populaton, counnt'' \<and>
       misspelled_pvs r ''url'' = None \<and>
       misspelled_pvs r ''name'' \<noteq> Some []"
proof -
  let ?node = "[(''name'', Str ''Populaton counnt''), (''url'', Str ''htpp'')]"
  let ?sc = "new_SpellChecker small_env"
  obtain r where r: "spell_check_pvs small_env ''dc/1'' ?node ?sc (Some ConfigMap) = Inr r"
    using pvs_total [of small_env "''dc/1''" ?node ?sc ConfigMap] by blast
  have d: "distinct (map fst ?node)"
    by simp
  have u: "\<forall>ws. [] |\<notin>| ws \<longrightarrow> [] |\<notin>| unknown small_env ?sc ws"
    by (simp add: eval_env)
  have ex1: "\<not> is_exempt_nonempty small_env ''name'' (Str ''Populaton counnt'') ConfigMap"
    by (simp add: eval_spec eval_policy eval_env isupper_def ascii_upper_def ascii_lower_def)
  have ex2: "is_exempt_nonempty small_env ''url'' (Str ''htpp'') ConfigMap"
    by (simp add: eval_spec eval_policy eval_env)
  have gw: "get_words ''Populaton counnt'' = [''Populaton'', ''counnt'']"
    by (simp add: eval_words)
  have uw: "unrecognized_words small_env ?sc ConfigMap ''name'' (Str ''Populaton counnt'')
      = {|''Populaton'', ''counnt''|}"
    by (simp add: unrecognized_words_def pv_words_def prop_words_def value_words_def gw
        eval_env config_get_def ffilter_finsert ffilter_fempty)
  have srt: "sorted_list_of_fset {|''Populaton'', ''counnt''|} = [''Populaton'', ''counnt'']"
    by (simp add: sorted_list_of_fset.rep_eq)
  from spell_check_pvs_entries [OF r d, of "''name''"] u
  have "misspelled_pvs r ''name'' = Some ''Populaton, counnt'' \<and>
      misspelled_pvs r ''name'' \<noteq> Some []"
    by (simp add: config_or_default_def ex1 uw srt)
  moreover from spell_check_pvs_entries [OF r d, of "''url''"]
  have "misspelled_pvs r ''url'' = None"
    by (simp add: config_or_default_def ex2)
  ultimately show ?thesis using r by blast
qed

text \<open>
  C6 (amended). When \<open>spell_check_text_only\<close> is enabled, \<open>spell_check_pvs\<close> returns and
  makes no call that queries or tokenizes a property name; the candidate words of a pair
  come from its value alone; and every string value that survives the exemption policy is
  empty or begins with a double quote.
\<close>

theorem spell_check_pvs_text_only:
  assumes "config_get (spell_check_text_only c) False"
  shows "(\<exists>r. spell_check_pvs E dcid node spell_checker (Some c) = Inr r \<and>
            (\<forall>k \<in> set (calls r). \<not> is_prop_call k)) \<and>
     (\<forall>prop value. pv_words E spell_checker c prop value =
        fst (value_words E spell_checker (str_py value))) \<and>
     (\<forall>prop v. should_ignore_spell_pv E prop (Str v) (Some c) = Inr False \<longrightarrow>
        v = [] \<or> begins_with (CHR 0x22) v)"
proof (intro conjI allI impI)
  obtain r where r: "spell_check_pvs E dcid node spell_checker (Some c) = Inr r"
    using pvs_total [of E dcid node spell_checker c] by blast
  then have "\<forall>k \<in> set (calls r). \<not> is_prop_call k"
    unfolding spell_check_pvs_def using assms by (rule loop_calls) simp
  with r show "\<exists>r. spell_check_pvs E dcid node spell_checker (Some c) = Inr r \<and>
            (\<forall>k \<in> set (calls r). \<not> is_prop_call k)"
    by blast
next
  fix p :: string and v :: pyvalue
  show "pv_words E spell_checker c p v = fst (value_words E spell_checker (str_py v))"
    using assms by (simp add: pv_words_def prop_words_def)
next
  fix p v
  assume "should_ignore_spell_pv E p (Str v) (Some c) = Inr False"
  then have "\<not> (v \<noteq> [] \<and> value_exempt c v)"
    by (simp add: should_ignore_eq is_exempt_nonempty_def config_or_default_def)
  with assms show "v = [] \<or> begins_with (CHR 0x22) v"
    by (auto simp: value_exempt_def)
qed

text \<open>
  C6 as stated fails on the empty string value: under \<open>spell_check_text_only\<close> it does not
  begin with a double quote, yet the pair is not ignored and the value is passed to the
  spell checker.
\<close>

theorem text_only_counterexample:
  "config_get (spell_check_text_only text_only_config) False \<and>
   should_ignore_spell_pv small_env ''description'' (Str []) (Some text_only_config) = Inr False \<and>
   \<not> begins_with (CHR 0x22) [] \<and>
   spell_check_pvs small_env ''dc/1'' [(''description'', Str [])] (new_SpellChecker small_env)
     (Some text_only_config) =
     Inr \<lparr>misspelled_pvs = Map.empty, words_misspelled = {||},
          calls = [Unknown_value [], Get_words_value []]\<rparr>"
  by (simp add: eval_check eval_policy eval_words eval_env begins_with_def)

theorem spell_check_pvs_text_only_witness:
  "config_get (spell_check_text_only text_only_config) False \<and>
   spell_check_pvs small_env ''dc/1'' [(''name'', Str (CHR 0x22 # ''Populaton''))]
     (new_SpellChecker small_env) (Some text_only_config) =
     Inr \<lparr>misspelled_pvs = [''name'' \<mapsto> ''Populaton''], words_misspelled = {|''Populaton''|},
          calls = [Unknown_value (CHR 0x22 # ''Populaton''),
                   Get_words_value (CHR 0x22 # ''Populaton''),
                   Unknown_words {|''Populaton''|}]\<rparr> \<and>
   should_ignore_spell_pv small_env ''name'' (Str (CHR 0x22 # ''Populaton''))
     (Some text_only_config) = Inr False \<and>
   begins_with (CHR 0x22) (CHR 0x22 # ''Populaton'')"
proof -
  let ?v = "CHR 0x22 # ''Populaton''"
  have t: "config_get (spell_check_text_only text_only_config) False"
    by (simp add: eval_env config_get_def)
  have s: "should_ignore_spell_pv small_env ''name'' (Str ?v) (Some text_only_config) = Inr False"
    by (simp add: eval_policy eval_env isupper_def ascii_upper_def ascii_lower_def
        ascii_digit_def ascii_letter_def)
  have c: "spell_check_pvs small_env ''dc/1'' [(''name'', Str ?v)]
          (new_SpellChecker small_env) (Some text_only_config) =
       Inr \<lparr>misspelled_pvs = [''name'' \<mapsto> ''Populaton''], words_misspelled = {|''Populaton''|},
            calls = [Unknown_value ?v, Get_words_value ?v, Unknown_words {|''Populaton''|}]\<rparr>"
    by (simp add: eval_check eval_policy eval_words eval_env)
  from spell_check_pvs_text_only [OF t, of small_env "''dc/1''" "[(''name'', Str ?v)]"
      "new_SpellChecker small_env"] s
  have "begins_with (CHR 0x22) ?v" by blast
  with t s c show ?thesis by simp
qed

text \<open>
  C8. On a node with a pair that \<open>should_ignore_spell_pv\<close> does not ignore,
  \<open>spell_check_pvs\<close> called with \<open>config = None\<close> fails with the attribute error of
  \<open>config.get\<close>, where with an empty \<open>ConfigMap\<close> it returns; \<open>should_ignore_spell_pv\<close>
  itself treats \<open>None\<close> as the empty \<open>ConfigMap\<close>.
\<close>

theorem spell_check_pvs_without_config:
  assumes "(prop, value) \<in> set node"
    and "should_ignore_spell_pv E prop value None = Inr False"
  shows "spell_check_pvs E dcid node spell_checker None = Inl AttributeError \<and>
     (\<exists>r. spell_check_pvs E dcid node spell_checker (Some ConfigMap) = Inr r) \<and>
     should_ignore_spell_pv E prop value None =
       should_ignore_spell_pv E prop value (Some ConfigMap)"
proof -
  from assms(2) have "\<not> is_exempt_nonempty E prop value ConfigMap"
    by (simp add: should_ignore_eq config_or_default_def)
  with assms(1) have "\<exists>(p, v) \<in> set node. \<not> is_exempt_nonempty E p v ConfigMap"
    by blast
  then have "spell_check_pvs E dcid node spell_checker None = Inl AttributeError"
    by (simp add: spell_check_pvs_def loop_None)
  moreover have "\<exists>r. spell_check_pvs E dcid node spell_checker (Some ConfigMap) = Inr r"
    by (rule pvs_total)
  moreover have "should_ignore_spell_pv E prop value None =
      should_ignore_spell_pv E prop value (Some ConfigMap)"
    by (simp add: should_ignore_eq config_or_default_def)
  ultimately show ?thesis by blast
qed

theorem spell_check_pvs_without_config_witness:
  "should_ignore_spell_pv small_env ''name'' (Str ''Populaton'') None = Inr False \<and>
   spell_check_pvs small_env ''dc/1'' [(''url'', Str ''x''), (''name'', Str ''Populaton'')]
     (new_SpellChecker small_env) None = Inl AttributeError \<and>
   (\<exists>r. spell_check_pvs small_env ''dc/1'' [(''url'', Str ''x''), (''name'', Str ''Populaton'')]
     (new_SpellChecker small_env) (Some ConfigMap) = Inr r)"
proof -
  have a: "should_ignore_spell_pv small_env ''name'' (Str ''Populaton'') None = Inr False"
    by (simp add: eval_policy eval_env isupper_def ascii_upper_def ascii_lower_def)
  have b: "(''name'', Str ''Populaton'') \<in> set [(''url'', Str ''x''), (''name'', Str ''Populaton'')]"
    by simp
  from spell_check_pvs_without_config [OF b a, of "''dc/1''" "new_SpellChecker small_env"] a
  show ?thesis by blast
qed

section \<open>Properties of the corpus checker\<close>

lemma nodes_loop_dom:
  "\<exists>ne ew. spell_check_nodes_loop E sc c nodes (ne0, ew0) = Inr (ne, ew) \<and>
     (\<forall>dcid. dcid \<in> dom ne \<longleftrightarrow>
        dcid \<in> dom ne0 \<or> (\<exists>node. (dcid, node) \<in> set nodes \<and> has_errors E sc c dcid node))"
proof (induction nodes arbitrary: ne0 ew0)
  case Nil
  then show ?case by simp
next
  case (Cons item nodes)
  obtain d node where item: "item = (d, node)" by (cases item)
  obtain r where r: "spell_check_pvs E d node sc (Some c) = Inr r"
    using pvs_total [of E d node sc c] by blast
  show ?case
  proof (cases "words_misspelled r = {||}")
    case True
    with r have no: "\<not> has_errors E sc c d node"
      by (simp add: has_errors_def)
    from True r item have step: "spell_check_nodes_loop E sc c (item # nodes) (ne0, ew0) =
        spell_check_nodes_loop E sc c nodes (ne0, ew0)"
      by simp
    from Cons.IH [of ne0 ew0] obtain ne ew where
      run: "spell_check_nodes_loop E sc c nodes (ne0, ew0) = Inr (ne, ew)" and
      dom: "\<forall>dcid. dcid \<in> dom ne \<longleftrightarrow>
        dcid \<in> dom ne0 \<or> (\<exists>node. (dcid, node) \<in> set nodes \<and> has_errors E sc c dcid node)"
      by blast
    have "\<forall>dcid. dcid \<in> dom ne \<longleftrightarrow>
        dcid \<in> dom ne0 \<or>
        (\<exists>node. (dcid, node) \<in> set (item # nodes) \<and> has_errors E sc c dcid node)"
      using dom item no by auto
    with step run show ?thesis by simp
  next
    case False
    with r have yes: "has_errors E sc c d node"
      by (simp add: has_errors_def)
    let ?ne = "ne0(d \<mapsto> misspelled_pvs r)"
    let ?ew = "ew0 |\<union>| words_misspelled r"
    from False r item have step: "spell_check_nodes_loop E sc c (item # nodes) (ne0, ew0) =
        spell_check_nodes_loop E sc c nodes (?ne, ?ew)"
      by simp
    from Cons.IH [of ?ne ?ew] obtain ne ew where
      run: "spell_check_nodes_loop E sc c nodes (?ne, ?ew) = Inr (ne, ew)" and
      dom: "\<forall>dcid. dcid \<in> dom ne \<longleftrightarrow>
        dcid \<in> dom ?ne \<or> (\<exists>node. (dcid, node) \<in> set nodes \<and> has_errors E sc c dcid node)"
      by blast
    have "\<forall>dcid. dcid \<in> dom ne \<longleftrightarrow>
        dcid \<in> dom ne0 \<or>
        (\<exists>node. (dcid, node) \<in> set (item # nodes) \<and> has_errors E sc c dcid node)"
      using dom item yes by auto
    with step run show ?thesis by simp
  qed
qed

lemma spell_check_nodes_run:
  "spell_check_nodes E nodes config0 spell_checker0 =
     (case spell_check_nodes_loop E (checker_or_default E config0 spell_checker0)
             (config_or_default config0) nodes (Map.empty, {||}) of
        Inl e \<Rightarrow> Inl e
      | Inr (node_errors, error_words) \<Rightarrow> Inr node_errors)"
  unfolding spell_check_nodes_def config_or_default_def checker_or_default_def Let_def
  by (rule refl)

text \<open>
  C5. For every collection of nodes, \<open>spell_check_nodes\<close> returns an error collection, and
  a key is in it if and only if the collection holds a node under this key for which
  \<open>spell_check_pvs\<close> returns an error map with at least one entry; an error map has an
  entry if and only if the node-level set of misspelled words is not empty.
\<close>

theorem spell_check_nodes_error_keys:
  "\<exists>node_errors. spell_check_nodes E nodes config0 spell_checker0 = Inr node_errors \<and>
     (\<forall>dcid. dcid \<in> dom node_errors \<longleftrightarrow>
        (\<exists>node r. (dcid, node) \<in> set nodes \<and>
           spell_check_pvs E dcid node (checker_or_default E config0 spell_checker0)
             (Some (config_or_default config0)) = Inr r \<and>
           (\<exists>prop entry. misspelled_pvs r prop = Some entry))) \<and>
     (\<forall>dcid node r.
        spell_check_pvs E dcid node (checker_or_default E config0 spell_checker0)
          (Some (config_or_default config0)) = Inr r \<longrightarrow>
        ((\<exists>prop entry. misspelled_pvs r prop = Some entry) \<longleftrightarrow> words_misspelled r \<noteq> {||}))"
proof -
  let ?c = "config_or_default config0"
  let ?sc = "checker_or_default E config0 spell_checker0"
  have eqv: "(\<exists>prop entry. misspelled_pvs r prop = Some entry) \<longleftrightarrow> words_misspelled r \<noteq> {||}"
    if "spell_check_pvs E dcid node ?sc (Some ?c) = Inr r" for dcid node r
  proof -
    have "misspelled_pvs r \<noteq> Map.empty \<longleftrightarrow> (\<exists>prop entry. misspelled_pvs r prop = Some entry)"
      by (metis not_Some_eq)
    with pvs_words_iff [OF that] show ?thesis by simp
  qed
  from nodes_loop_dom [of E ?sc ?c nodes Map.empty "{||}"] obtain ne ew where
    run: "spell_check_nodes_loop E ?sc ?c nodes (Map.empty, {||}) = Inr (ne, ew)" and
    dom: "\<forall>dcid. dcid \<in> dom ne \<longleftrightarrow>
        (\<exists>node. (dcid, node) \<in> set nodes \<and> has_errors E ?sc ?c dcid node)"
    by auto
  from run have res: "spell_check_nodes E nodes config0 spell_checker0 = Inr ne"
    by (simp add: spell_check_nodes_run)
  have "\<forall>dcid. dcid \<in> dom ne \<longleftrightarrow>
        (\<exists>node r. (dcid, node) \<in> set nodes \<and>
           spell_check_pvs E dcid node ?sc (Some ?c) = Inr r \<and>
           (\<exists>prop entry. misspelled_pvs r prop = Some entry))"
    using dom eqv unfolding has_errors_def by blast
  with res eqv show ?thesis by blast
qed

theorem spell_check_nodes_error_keys_witness:
  "\<exists>node_errors.
     spell_check_nodes small_env
       [(''dc/1'', [(''name'', Str ''Populaton'')]), (''dc/2'', [(''name'', Str ''population'')])]
       (Some ConfigMap) (Some (new_SpellChecker small_env)) = Inr node_errors \<and>
     ''dc/1'' \<in> dom node_errors \<and> ''dc/2'' \<notin> dom node_errors"
proof -
  let ?nodes = "[(''dc/1'', [(''name'', Str ''Populaton'')]),
                 (''dc/2'', [(''name'', Str ''population'')])]"
  let ?sc = "new_SpellChecker small_env"
  have r1: "spell_check_pvs small_env ''dc/1'' [(''name'', Str ''Populaton'')] ?sc (Some ConfigMap)
     = Inr \<lparr>misspelled_pvs = [''name'' \<mapsto> ''Populaton''], words_misspelled = {|''Populaton''|},
         calls = [Unknown_prop ''name'', Unknown_value ''Populaton'',
                  Get_words_value ''Populaton'', Unknown_words {|''Populaton''|}]\<rparr>"
    by (simp add: eval_check eval_policy eval_words eval_env)
  have r2: "spell_check_pvs small_env ''dc/2'' [(''name'', Str ''population'')] ?sc (Some ConfigMap)
     = Inr \<lparr>misspelled_pvs = Map.empty, words_misspelled = {||},
         calls = [Unknown_prop ''name'', Unknown_value ''population'']\<rparr>"
    by (simp add: eval_check eval_policy eval_words eval_env)
  from spell_check_nodes_error_keys [of small_env ?nodes "Some ConfigMap" "Some ?sc"]
  obtain ne where
    run: "spell_check_nodes small_env ?nodes (Some ConfigMap) (Some ?sc) = Inr ne" and
    keys: "\<forall>dcid. dcid \<in> dom ne \<longleftrightarrow>
        (\<exists>node r. (dcid, node) \<in> set ?nodes \<and>
           spell_check_pvs small_env dcid node ?sc (Some ConfigMap) = Inr r \<and>
           (\<exists>prop entry. misspelled_pvs r prop = Some entry))"
    by (auto simp: checker_or_default_def config_or_default_def)
  have "''dc/1'' \<in> dom ne"
  proof -
    have "\<exists>node r. (''dc/1'', node) \<in> set ?nodes \<and>
           spell_check_pvs small_env ''dc/1'' node ?sc (Some ConfigMap) = Inr r \<and>
           (\<exists>prop entry. misspelled_pvs r prop = Some entry)"
      using r1 by (intro exI [of _ "[(''name'', Str ''Populaton'')]"]) auto
    with keys show ?thesis by blast
  qed
  moreover have "''dc/2'' \<notin> dom ne"
  proof -
    have "\<not> (\<exists>node r. (''dc/2'', node) \<in> set ?nodes \<and>
           spell_check_pvs small_env ''dc/2'' node ?sc (Some ConfigMap) = Inr r \<and>
           (\<exists>prop entry. misspelled_pvs r prop = Some entry))"
      by (auto simp: r2)
    with keys show ?thesis by blast
  qed
  ultimately show ?thesis using run by blast
qed

section \<open>Properties of the dictionary builder\<close>

lemma words_of_option_truthy: "truthy_words aw \<Longrightarrow> words_of_option aw \<noteq> []"
  by (cases aw) (simp_all add: split_py_not_Nil)

text \<open>
  C7 (amended). When the configured allow-list path resolves to zero matching files,
  \<open>get_spell_checker\<close> loads no file: it returns the base Vocabulary with only the inline
  words of \<open>spell_allow_words\<close> loaded (\<open>dcs\<close> and \<open>dcid\<close> when the option is unset), and the
  base Vocabulary itself when there are no inline words.
\<close>

theorem get_spell_checker_no_files:
  assumes "file_get_matching E
      (config_get (spell_allowlist (spell_config_or_default E config0)) (DEFAULT_ALLOWLIST E)) = []"
  shows "get_spell_checker E config0 =
     (if inline_allow_words (spell_config_or_default E config0) = [] then new_SpellChecker E
      else load_words E (inline_allow_words (spell_config_or_default E config0))
             (new_SpellChecker E))"
  using assms
  by (auto simp: get_spell_checker_def spell_config_or_default_def inline_allow_words_def
      Let_def words_of_option_truthy)

text \<open>
  C7 as stated fails under the default \<open>spell_allow_words\<close>: with no matching file the
  words \<open>dcs\<close> and \<open>dcid\<close> are still loaded, so the result recognizes \<open>dcid\<close>, which the
  base Vocabulary does not.
\<close>

theorem get_spell_checker_counterexample:
  "file_get_matching small_env
     (config_get (spell_allowlist ConfigMap) (DEFAULT_ALLOWLIST small_env)) = [] \<and>
   get_spell_checker small_env (Some ConfigMap) \<noteq> new_SpellChecker small_env \<and>
   ''dcid'' \<in> get_spell_checker small_env (Some ConfigMap) \<and>
   ''dcid'' \<notin> new_SpellChecker small_env"
proof -
  have a: "''dcid'' \<in> get_spell_checker small_env (Some ConfigMap)"
    by (simp add: get_spell_checker_def eval_env config_get_def)
  have b: "''dcid'' \<notin> new_SpellChecker small_env"
    by (simp add: eval_env)
  have c: "file_get_matching small_env
      (config_get (spell_allowlist ConfigMap) (DEFAULT_ALLOWLIST small_env)) = []"
    by (simp add: eval_env)
  from a b have "get_spell_checker small_env (Some ConfigMap) \<noteq> new_SpellChecker small_env"
    by metis
  with a b c show ?thesis by blast
qed

theorem get_spell_checker_no_files_witness:
  "get_spell_checker small_env (Some (ConfigMap\<lparr>spell_allow_words := Some (Word_list [])\<rparr>)) =
     new_SpellChecker small_env \<and>
   get_spell_checker small_env
     (Some (ConfigMap\<lparr>spell_allow_words := Some (Word_str ''geoId,dcid'')\<rparr>)) =
     load_words small_env [''geoId'', ''dcid''] (new_SpellChecker small_env) \<and>
   get_spell_checker small_env None =
     load_words small_env [''dcs'', ''dcid''] (new_SpellChecker small_env)"
proof -
  have f: "file_get_matching small_env
      (config_get (spell_allowlist (spell_config_or_default small_env cfg))
         (DEFAULT_ALLOWLIST small_env)) = []" for cfg
    by (simp add: eval_env)
  have i1: "inline_allow_words (ConfigMap\<lparr>spell_allow_words := Some (Word_list [])\<rparr>) = []"
    by (simp add: inline_allow_words_def config_get_def)
  have i2: "inline_allow_words (ConfigMap\<lparr>spell_allow_words := Some (Word_str ''geoId,dcid'')\<rparr>)
      = [''geoId'', ''dcid'']"
    by (simp add: inline_allow_words_def config_get_def)
  have i3: "inline_allow_words (get_default_spell_config (FLAGS small_env)) = [''dcs'', ''dcid'']"
    by (simp add: inline_allow_words_def config_get_def get_default_spell_config_def)
  show ?thesis
    using get_spell_checker_no_files
        [OF f, of "Some (ConfigMap\<lparr>spell_allow_words := Some (Word_list [])\<rparr>)"]
      get_spell_checker_no_files
        [OF f, of "Some (ConfigMap\<lparr>spell_allow_words := Some (Word_str ''geoId,dcid'')\<rparr>)"]
      get_spell_checker_no_files [OF f, of None]
    by (simp add: spell_config_or_default_def i1 i2 i3)
qed

end
